theory Spec2Isabelle
  imports Main
begin

section \<open>Data model of the prompt builder service\<close>

text \<open>
  The service of \<^verbatim>\<open>prompt-builder-service.ts\<close> works on plain JavaScript objects.
  An optional field (\<^verbatim>\<open>role?: ...\<close>) is an \<open>option\<close>: \<open>None\<close> is \<^verbatim>\<open>undefined\<close>.
  Numbers are the integers the callers store (\<open>int\<close>), strings are \<open>string\<close>
  (byte strings; a label outside ASCII is written as its UTF-8 bytes).
\<close>

record DEntry =
  d_name :: string
  d_content :: string
  d_role :: "string option"
  d_position :: "int option"
  d_depth :: "int option"
  d_constant :: "bool option"
  d_key :: "string list option"
  d_identifier :: "string option"

record RFrameworkEntry =
  r_name :: string
  r_content :: string
  r_role :: "string option"
  r_identifier :: "string option"
  isChatHistory :: "bool option"

text \<open>
  Modelled from the spec: the type \<^verbatim>\<open>ChatMessage\<close> is imported from
  \<^verbatim>\<open>shared/types\<close>, which is not among the sources. The record has the fields
  the service reads (\<^verbatim>\<open>role\<close>, \<^verbatim>\<open>parts\<close>, \<^verbatim>\<open>timestamp\<close>, \<^verbatim>\<open>is_d_entry\<close>)
  and the anchor marker that the spec gives a conversation turn (\<^verbatim>\<open>isAnchorMarker\<close>,
  the flag \<^verbatim>\<open>is_author_note\<close> of the source), which \<^verbatim>\<open>processHistory\<close> never reads.
  \<^verbatim>\<open>parts\<close> is the spec's ordered list of text fragments, a part \<^verbatim>\<open>{text: s}\<close>
  being the string \<open>s\<close>. A missing flag is \<open>False\<close>.
\<close>

record ChatMessage =
  c_role :: string
  c_parts :: "string list option"
  c_timestamp :: "int option"
  c_is_d_entry :: bool
  c_is_author_note :: bool

text \<open>
  The objects of the history array (\<^verbatim>\<open>any[]\<close> in the source): normalized turns
  \<^verbatim>\<open>{role, parts, timestamp}\<close> and the objects built from D-entries, which carry
  \<^verbatim>\<open>is_d_entry: true\<close> and the entry's \<^verbatim>\<open>depth\<close> or \<^verbatim>\<open>position\<close>, \<^verbatim>\<open>constant\<close>,
  \<^verbatim>\<open>identifier\<close> and \<^verbatim>\<open>name\<close>. A flag that an object does not have is falsy: \<open>False\<close>.
\<close>

record Msg =
  m_role :: string
  m_parts :: "string list"
  m_timestamp :: "int option"
  is_d_entry :: bool
  is_author_note :: bool
  m_depth :: "int option"
  m_position :: "int option"
  m_constant :: "bool option"
  m_identifier :: "string option"
  m_name :: "string option"

text \<open>
  The \<^verbatim>\<open>parts\<close> of an output block: the one-element array \<^verbatim>\<open>[{text: content}]\<close> of
  a framework block (\<open>Texts\<close>), or the array of turns of the chat history container
  (\<open>Turns\<close>; the container is built with \<^verbatim>\<open>parts: []\<close>, which is \<open>Turns []\<close>).
  \<open>NotArray\<close> stands for a \<^verbatim>\<open>parts\<close> that is missing or not an array, which
  \<^verbatim>\<open>messagesToText\<close> (on \<^verbatim>\<open>any[]\<close>) also tests for.
\<close>

datatype Parts = Texts "string list" | Turns "Msg list" | NotArray

record OutMsg =
  o_name :: string
  o_role :: string
  o_parts :: Parts
  o_identifier :: "string option"

record PromptBuilderOptions =
  rFramework :: "RFrameworkEntry list"
  dEntries :: "DEntry list option"
  chatHistory :: "ChatMessage list option"
  userMessage :: "string option"
  maxHistoryLength :: "int option"

section \<open>JavaScript operators\<close>

text \<open>\<^verbatim>\<open>s || dflt\<close> on an optional string: \<^verbatim>\<open>undefined\<close> and \<^verbatim>\<open>""\<close> are falsy.\<close>

definition str_or :: "string option \<Rightarrow> string \<Rightarrow> string" where
  "str_or s dflt = (case s of None \<Rightarrow> dflt | Some v \<Rightarrow> if v = [] then dflt else v)"

text \<open>\<^verbatim>\<open>n || dflt\<close> on an optional number: \<^verbatim>\<open>undefined\<close> and \<^verbatim>\<open>0\<close> are falsy.\<close>

definition num_or :: "int option \<Rightarrow> int \<Rightarrow> int" where
  "num_or n dflt = (case n of None \<Rightarrow> dflt | Some v \<Rightarrow> if v = 0 then dflt else v)"

text \<open>\<^verbatim>\<open>b || dflt\<close> on an optional boolean: \<^verbatim>\<open>undefined\<close> and \<^verbatim>\<open>false\<close> are falsy.\<close>

definition bool_or :: "bool option \<Rightarrow> bool \<Rightarrow> bool" where
  "bool_or b dflt = (case b of None \<Rightarrow> dflt | Some v \<Rightarrow> if v then v else dflt)"

text \<open>\<^verbatim>\<open>xs || dflt\<close> on an optional array: every array, also the empty one, is truthy.\<close>

definition arr_or :: "'a list option \<Rightarrow> 'a list \<Rightarrow> 'a list" where
  "arr_or xs dflt = (case xs of None \<Rightarrow> dflt | Some v \<Rightarrow> v)"

text \<open>The truth value of an optional string, as in \<^verbatim>\<open>if (userMessage)\<close>.\<close>

definition truthy :: "string option \<Rightarrow> bool" where
  "truthy s = (case s of None \<Rightarrow> False | Some v \<Rightarrow> v \<noteq> [])"

section \<open>createDEntry\<close>

definition createDEntry :: "DEntry \<Rightarrow> DEntry" where
  "createDEntry options =
     \<lparr> d_name = d_name options,
       d_content = d_content options,
       d_role = Some (str_or (d_role options) ''user''),
       d_position = Some (num_or (d_position options) 4),
       d_depth = Some (num_or (d_depth options) 1),
       d_constant = Some (bool_or (d_constant options) True),
       d_key = Some (arr_or (d_key options) []),
       d_identifier = d_identifier options \<rparr>"

section \<open>Array operations\<close>

text \<open>
  \<^verbatim>\<open>xs.slice(-n)\<close>: for \<open>n > 0\<close> the last \<open>n\<close> elements (all of them when the array is
  shorter); \<^verbatim>\<open>-0\<close> is \<open>0\<close>, so \<^verbatim>\<open>slice(-0)\<close> is the whole array; for \<open>n < 0\<close> the
  start index \<open>-n\<close> is positive and the first \<open>-n\<close> elements are dropped.
\<close>

definition slice_last :: "int \<Rightarrow> 'a list \<Rightarrow> 'a list" where
  "slice_last n xs =
     (if 0 < n then drop (length xs - nat n) xs else drop (nat (- n)) xs)"

text \<open>\<^verbatim>\<open>xs.findIndex(p)\<close>: the index of the first element satisfying \<open>p\<close>, or \<open>-1\<close>.\<close>

fun findIndex :: "('a \<Rightarrow> bool) \<Rightarrow> 'a list \<Rightarrow> int" where
  "findIndex p [] = - 1"
| "findIndex p (x # xs) =
     (if p x then 0 else (let r = findIndex p xs in if r = - 1 then - 1 else r + 1))"

text \<open>
  \<^verbatim>\<open>xs.splice(start, 0, item)\<close> inserts \<open>item\<close> at \<open>start\<close>; a negative start counts
  from the end, and the start is clamped to the array.
\<close>

definition splice_insert :: "int \<Rightarrow> 'a \<Rightarrow> 'a list \<Rightarrow> 'a list" where
  "splice_insert start item xs =
     (let len = int (length xs);
          s = (if start < 0 then max (len + start) 0 else min start len)
      in take (nat s) xs @ [item] @ drop (nat s) xs)"

text \<open>\<^verbatim>\<open>strs.join(sep)\<close>.\<close>

fun join :: "string \<Rightarrow> string list \<Rightarrow> string" where
  "join sep [] = []"
| "join sep [s] = s"
| "join sep (s # t # ss) = s @ sep @ join sep (t # ss)"

text \<open>
  \<^verbatim>\<open>text.trim() !== ''\<close>: the text has a character that is not white space. The white
  space of \<^verbatim>\<open>trim\<close> is tab, line feed, vertical tab, form feed, carriage return and
  space, and beyond ASCII the code points U+00A0, U+1680, U+2000 to U+200A, U+2028, U+2029,
  U+202F, U+205F, U+3000 and U+FEFF, which are two or three bytes each in UTF-8.
\<close>

definition is_space :: "char \<Rightarrow> bool" where
  "is_space c = (c \<in> set [CHR 0x09, CHR 0x0A, CHR 0x0B, CHR 0x0C, CHR 0x0D, CHR '' ''])"

definition is_space2 :: "char \<Rightarrow> char \<Rightarrow> bool" where
  "is_space2 a b = (a = CHR 0xC2 \<and> b = CHR 0xA0)"

definition is_space3 :: "char \<Rightarrow> char \<Rightarrow> char \<Rightarrow> bool" where
  "is_space3 a b c =
     ((a = CHR 0xE1 \<and> b = CHR 0x9A \<and> c = CHR 0x80)
      \<or> (a = CHR 0xE2 \<and> b = CHR 0x80
          \<and> c \<in> set [CHR 0x80, CHR 0x81, CHR 0x82, CHR 0x83, CHR 0x84, CHR 0x85, CHR 0x86,
                       CHR 0x87, CHR 0x88, CHR 0x89, CHR 0x8A, CHR 0xA8, CHR 0xA9, CHR 0xAF])
      \<or> (a = CHR 0xE2 \<and> b = CHR 0x81 \<and> c = CHR 0x9F)
      \<or> (a = CHR 0xE3 \<and> b = CHR 0x80 \<and> c = CHR 0x80)
      \<or> (a = CHR 0xEF \<and> b = CHR 0xBB \<and> c = CHR 0xBF))"

text \<open>The text is white space from its first to its last character.\<close>

fun blank :: "string \<Rightarrow> bool" where
  "blank [] = True"
| "blank [a] = is_space a"
| "blank [a, b] = (if is_space a then blank [b] else is_space2 a b)"
| "blank (a # b # c # s) =
     (if is_space a then blank (b # c # s)
      else if is_space2 a b then blank (c # s)
      else if is_space3 a b c then blank s
      else False)"

definition trim_nonempty :: "string \<Rightarrow> bool" where
  "trim_nonempty s = (\<not> blank s)"

section \<open>processHistory\<close>

text \<open>
  The callback of \<^verbatim>\<open>history.map\<close>: \<^verbatim>\<open>null\<close> for a message flagged \<^verbatim>\<open>is_d_entry\<close>,
  else the normalized turn. With \<^verbatim>\<open>msg.parts\<close> missing, \<^verbatim>\<open>msg.parts?.[0]\<close> is
  \<^verbatim>\<open>undefined\<close> and the parts are \<^verbatim>\<open>[{text: ""}]\<close>.
\<close>

definition processMessage :: "ChatMessage \<Rightarrow> Msg option" where
  "processMessage msg =
     (if c_is_d_entry msg then None
      else Some \<lparr> m_role = (if c_role msg = ''assistant'' \<or> c_role msg = ''model''
                             then ''model'' else ''user''),
                  m_parts = arr_or (c_parts msg) [''''],
                  m_timestamp = c_timestamp msg,
                  is_d_entry = False, is_author_note = False,
                  m_depth = None, m_position = None, m_constant = None,
                  m_identifier = None, m_name = None \<rparr>)"

text \<open>\<^verbatim>\<open>history.map(...).filter(Boolean)\<close>: the \<^verbatim>\<open>null\<close>s are dropped.\<close>

definition processHistory :: "ChatMessage list \<Rightarrow> Msg list" where
  "processHistory history = List.map_filter processMessage history"

section \<open>insertDEntriesToHistory\<close>

text \<open>\<^verbatim>\<open>msg.parts?.[0]?.text\<close>: the text of the first part, if there is one.\<close>

definition first_text :: "Msg \<Rightarrow> string option" where
  "first_text msg = (case m_parts msg of [] \<Rightarrow> None | t # _ \<Rightarrow> Some t)"

definition is_base :: "string \<Rightarrow> Msg \<Rightarrow> bool" where
  "is_base baseMessage msg =
     (m_role msg = ''user'' \<and> first_text msg = Some baseMessage)"

definition baseMessageIndex :: "Msg list \<Rightarrow> string \<Rightarrow> int" where
  "baseMessageIndex chatMessages baseMessage =
     int (length chatMessages) - 1 - findIndex (is_base baseMessage) (rev chatMessages)"

definition effectiveBaseIndex :: "Msg list \<Rightarrow> string \<Rightarrow> int" where
  "effectiveBaseIndex chatMessages baseMessage =
     (if baseMessageIndex chatMessages baseMessage \<noteq> - 1
      then baseMessageIndex chatMessages baseMessage
      else int (length chatMessages) - 1)"

text \<open>The object pushed for an entry of position 4 (or of no position).\<close>

definition depthMsg :: "DEntry \<Rightarrow> Msg" where
  "depthMsg entry =
     \<lparr> m_role = str_or (d_role entry) ''user'',
       m_parts = [d_content entry],
       m_timestamp = None,
       is_d_entry = True, is_author_note = False,
       m_depth = d_depth entry, m_position = None,
       m_constant = d_constant entry,
       m_identifier = d_identifier entry, m_name = Some (d_name entry) \<rparr>"

text \<open>The object built for an entry of another position.\<close>

definition positionMsg :: "DEntry \<Rightarrow> Msg" where
  "positionMsg entry =
     \<lparr> m_role = str_or (d_role entry) ''user'',
       m_parts = [d_content entry],
       m_timestamp = None,
       is_d_entry = True, is_author_note = False,
       m_depth = None, m_position = d_position entry,
       m_constant = d_constant entry,
       m_identifier = d_identifier entry, m_name = Some (d_name entry) \<rparr>"

definition isPosition4 :: "DEntry \<Rightarrow> bool" where
  "isPosition4 entry = (d_position entry = Some 4 \<or> d_position entry = None)"

text \<open>
  The callback of \<^verbatim>\<open>reduce\<close>: the key is \<^verbatim>\<open>entry.depth || 0\<close>; a missing group is
  created empty, and the entry's object is pushed at its end.
\<close>

definition groupStep :: "(int \<rightharpoonup> Msg list) \<Rightarrow> DEntry \<Rightarrow> (int \<rightharpoonup> Msg list)" where
  "groupStep acc entry =
     (let depth = num_or (d_depth entry) 0;
          cur = (case acc depth of None \<Rightarrow> [] | Some g \<Rightarrow> g)
      in acc(depth \<mapsto> cur @ [depthMsg entry]))"

definition position4Entries :: "DEntry list \<Rightarrow> (int \<rightharpoonup> Msg list)" where
  "position4Entries entries = foldl groupStep Map.empty (filter isPosition4 entries)"

definition otherPositionEntries :: "DEntry list \<Rightarrow> Msg list" where
  "otherPositionEntries entries =
     map positionMsg
       (filter (\<lambda>entry. d_position entry \<noteq> None \<and> d_position entry \<noteq> Some 4) entries)"

text \<open>\<^verbatim>\<open>finalHistory.push(...group)\<close> when \<^verbatim>\<open>position4Entries[k]\<close> exists.\<close>

definition pushGroup :: "(int \<rightharpoonup> Msg list) \<Rightarrow> int \<Rightarrow> Msg list \<Rightarrow> Msg list" where
  "pushGroup groups k finalHistory =
     (case groups k of None \<Rightarrow> finalHistory | Some g \<Rightarrow> finalHistory @ g)"

text \<open>
  Step 5.1, the loop over \<^verbatim>\<open>chatMessages\<close>: \<open>i\<close> is the index of the first of the
  messages still to visit, \<open>finalHistory\<close> the array built so far.
\<close>

fun depthLoop ::
  "(int \<rightharpoonup> Msg list) \<Rightarrow> int \<Rightarrow> int \<Rightarrow> Msg list \<Rightarrow> Msg list \<Rightarrow> Msg list" where
  "depthLoop groups base i [] finalHistory = finalHistory"
| "depthLoop groups base i (msg # rest) finalHistory =
     (let depthFromBase = base - i;
          fh1 = pushGroup groups depthFromBase finalHistory;
          fh2 = fh1 @ [msg];
          fh3 = (if i = base then pushGroup groups 0 fh2 else fh2)
      in depthLoop groups base (i + 1) rest fh3)"

text \<open>
  Step 5.2, first loop: \<open>i\<close> runs down from the last of \<^verbatim>\<open>position2Items\<close>, so the
  function is given the items in reverse; each is spliced in at \<^verbatim>\<open>authorNoteIndex\<close>.
\<close>

fun insertBefore :: "int \<Rightarrow> Msg list \<Rightarrow> Msg list \<Rightarrow> Msg list" where
  "insertBefore authorNoteIndex [] finalHistory = finalHistory"
| "insertBefore authorNoteIndex (item # items) finalHistory =
     insertBefore authorNoteIndex items (splice_insert authorNoteIndex item finalHistory)"

text \<open>
  Step 5.2, second loop: the item of index \<open>i\<close> is spliced in at
  \<^verbatim>\<open>authorNoteIndex + 1 + i\<close>, with the \<^verbatim>\<open>authorNoteIndex\<close> found before the first loop.
\<close>

fun insertAfter :: "int \<Rightarrow> int \<Rightarrow> Msg list \<Rightarrow> Msg list \<Rightarrow> Msg list" where
  "insertAfter authorNoteIndex i [] finalHistory = finalHistory"
| "insertAfter authorNoteIndex i (item # items) finalHistory =
     insertAfter authorNoteIndex (i + 1) items
       (splice_insert (authorNoteIndex + 1 + i) item finalHistory)"

definition anchorPass :: "Msg list \<Rightarrow> Msg list \<Rightarrow> Msg list" where
  "anchorPass others finalHistory =
     (let authorNoteIndex = findIndex is_author_note finalHistory
      in if authorNoteIndex \<noteq> - 1 then
           (let position2Items = filter (\<lambda>e. m_position e = Some 2) others;
                position3Items = filter (\<lambda>e. m_position e = Some 3) others;
                fh = insertBefore authorNoteIndex (rev position2Items) finalHistory
            in insertAfter authorNoteIndex 0 position3Items fh)
         else finalHistory)"

definition insertDEntriesToHistory :: "Msg list \<Rightarrow> DEntry list \<Rightarrow> string \<Rightarrow> Msg list" where
  "insertDEntriesToHistory history entries baseMessage =
     (if length entries = 0 \<or> length history = 0 then history
      else
        (let chatMessages = filter (\<lambda>msg. \<not> is_d_entry msg) history;
             base = effectiveBaseIndex chatMessages baseMessage;
             groups = position4Entries entries;
             others = otherPositionEntries entries;
             finalHistory = depthLoop groups base 0 chatMessages []
         in anchorPass others finalHistory))"

section \<open>buildPrompt\<close>

text \<open>
  The callback of \<^verbatim>\<open>rFramework.forEach\<close> on the pair of \<^verbatim>\<open>messages\<close> and
  \<^verbatim>\<open>chatHistoryIndex\<close>.
\<close>

definition containerBlock :: "RFrameworkEntry \<Rightarrow> OutMsg" where
  "containerBlock entry =
     \<lparr> o_name = r_name entry,
       o_role = str_or (r_role entry) ''system'',
       o_parts = Turns [],
       o_identifier = r_identifier entry \<rparr>"

definition frameworkBlock :: "RFrameworkEntry \<Rightarrow> OutMsg" where
  "frameworkBlock entry =
     \<lparr> o_name = r_name entry,
       o_role = str_or (r_role entry) ''user'',
       o_parts = Texts [r_content entry],
       o_identifier = r_identifier entry \<rparr>"

definition frameworkStep :: "OutMsg list \<times> int \<Rightarrow> RFrameworkEntry \<Rightarrow> OutMsg list \<times> int" where
  "frameworkStep st entry =
     (case st of (messages, chatHistoryIndex) \<Rightarrow>
        if isChatHistory entry = Some True
        then (messages @ [containerBlock entry], int (length messages))
        else (messages @ [frameworkBlock entry], chatHistoryIndex))"

text \<open>Step 1: the framework blocks, and the appended container when none was flagged.\<close>

definition buildShell :: "PromptBuilderOptions \<Rightarrow> OutMsg list \<times> int" where
  "buildShell options =
     (case foldl frameworkStep ([], - 1) (rFramework options) of
        (messages, chatHistoryIndex) \<Rightarrow>
          if chatHistoryIndex = - 1
             \<and> (0 < length (arr_or (chatHistory options) []) \<or> truthy (userMessage options))
          then (messages @ [\<lparr> o_name = ''Chat History'', o_role = ''system'',
                               o_parts = Turns [],
                               o_identifier = Some ''chatHistory'' \<rparr>],
                int (length messages))
          else (messages, chatHistoryIndex))"

text \<open>
  The destructured \<^verbatim>\<open>maxHistoryLength = 15\<close>; then step 2, up to the call of
  \<^verbatim>\<open>insertDEntriesToHistory\<close>: the trimmed, processed history with the new user
  message pushed at its end.
\<close>

definition windowSize :: "PromptBuilderOptions \<Rightarrow> int" where
  "windowSize options = (case maxHistoryLength options of None \<Rightarrow> 15 | Some n \<Rightarrow> n)"

definition processedHistory :: "PromptBuilderOptions \<Rightarrow> Msg list" where
  "processedHistory options =
     (let trimmedHistory = slice_last (windowSize options) (arr_or (chatHistory options) []);
          processed = processHistory trimmedHistory
      in if truthy (userMessage options)
         then processed @ [\<lparr> m_role = ''user'',
                              m_parts = [the (userMessage options)],
                              m_timestamp = None,
                              is_d_entry = False, is_author_note = False,
                              m_depth = None, m_position = None, m_constant = None,
                              m_identifier = None, m_name = None \<rparr>]
         else processed)"

definition buildPrompt :: "PromptBuilderOptions \<Rightarrow> OutMsg list" where
  "buildPrompt options =
     (case buildShell options of
        (messages, chatHistoryIndex) \<Rightarrow>
          if chatHistoryIndex \<noteq> - 1 then
            (let historyWithDEntries =
                   insertDEntriesToHistory (processedHistory options)
                     (arr_or (dEntries options) []) (str_or (userMessage options) '''')
             in messages[nat chatHistoryIndex :=
                  (messages ! nat chatHistoryIndex)\<lparr>o_parts := Turns historyWithDEntries\<rparr>])
          else messages)"

text \<open>
  \<^verbatim>\<open>buildPrompt\<close> and the functions it calls have no \<^verbatim>\<open>throw\<close>, and every array
  operation they use is total on its arguments: the outcome of a call is the returned
  array, never an error.
\<close>

datatype error = ValidationError string

definition buildPrompt_outcome :: "PromptBuilderOptions \<Rightarrow> error + OutMsg list" where
  "buildPrompt_outcome options = Inr (buildPrompt options)"

section \<open>messagesToText\<close>

fun isArray :: "Parts \<Rightarrow> bool" where
  "isArray (Texts ps) = True"
| "isArray (Turns hs) = True"
| "isArray NotArray = False"

text \<open>
  \<^verbatim>\<open>parts.map(part => part.text || "")\<close>: a text part gives its text; a turn of the
  history has \<^verbatim>\<open>role\<close> and \<^verbatim>\<open>parts\<close> but no \<^verbatim>\<open>text\<close>, so it gives \<^verbatim>\<open>""\<close>.
\<close>

fun partTexts :: "Parts \<Rightarrow> string list" where
  "partTexts (Texts ps) = ps"
| "partTexts (Turns hs) = map (\<lambda>h. '''') hs"
| "partTexts NotArray = []"

text \<open>
  The label of a user turn, the two characters U+7528 U+6237 followed by a colon and a
  space, as UTF-8 bytes; and the label \<^verbatim>\<open>"AI: "\<close> of any other turn.
\<close>

definition userPrefix :: string where
  "userPrefix = [CHR 0xE7, CHR 0x94, CHR 0xA8, CHR 0xE6, CHR 0x88, CHR 0xB7] @ '': ''"

definition aiPrefix :: string where
  "aiPrefix = ''AI: ''"

text \<open>
  The third branch's \<^verbatim>\<open>parts.map(historyMsg => prefix + text)\<close>: a text part has no
  \<^verbatim>\<open>role\<close> and no \<^verbatim>\<open>parts\<close>, so it gives the label of the model and no text.
\<close>

fun labelledTurns :: "Parts \<Rightarrow> string list" where
  "labelledTurns (Turns hs) =
     map (\<lambda>h. (if m_role h = ''user'' then userPrefix else aiPrefix)
               @ str_or (first_text h) '''') hs"
| "labelledTurns (Texts ps) = map (\<lambda>p. aiPrefix) ps"
| "labelledTurns NotArray = []"

text \<open>
  \<^verbatim>\<open>msg.parts?.[0]?.text\<close> when it is a string: the text of a first text part. A
  turn has no \<^verbatim>\<open>text\<close>, and a \<^verbatim>\<open>parts\<close> that is missing has no first element.
\<close>

fun firstPartText :: "Parts \<Rightarrow> string option" where
  "firstPartText (Texts ps) = (case ps of [] \<Rightarrow> None | t # _ \<Rightarrow> Some t)"
| "firstPartText (Turns hs) = None"
| "firstPartText NotArray = None"

text \<open>The callback of \<^verbatim>\<open>messages.map\<close>, branch by branch in the order of the source.\<close>

definition messageText :: "OutMsg \<Rightarrow> string" where
  "messageText msg =
     (if isArray (o_parts msg) then join [CHR 0x0A] (partTexts (o_parts msg))
      else if firstPartText (o_parts msg) \<noteq> None then the (firstPartText (o_parts msg))
      else if o_name msg = ''Chat History'' \<and> isArray (o_parts msg)
        then join [CHR 0x0A, CHR 0x0A] (labelledTurns (o_parts msg))
      else [])"

definition messagesToText :: "OutMsg list \<Rightarrow> string" where
  "messagesToText messages =
     join [CHR 0x0A, CHR 0x0A] (filter trim_nonempty (map messageText messages))"

section \<open>Vocabulary of the properties\<close>

text \<open>A history-slot location of the output: a block built as the chat history container.\<close>

definition is_slot :: "OutMsg \<Rightarrow> bool" where
  "is_slot block = (case o_parts block of Turns hs \<Rightarrow> True | Texts ps \<Rightarrow> False | NotArray \<Rightarrow> False)"

definition flagged :: "RFrameworkEntry \<Rightarrow> bool" where
  "flagged entry = (isChatHistory entry = Some True)"

text \<open>A conversation exists: the test \<^verbatim>\<open>chatHistory.length > 0 || userMessage\<close>.\<close>

definition hasConversation :: "PromptBuilderOptions \<Rightarrow> bool" where
  "hasConversation options =
     (0 < length (arr_or (chatHistory options) []) \<or> truthy (userMessage options))"

text \<open>
  The invariant of \<^verbatim>\<open>chatHistoryIndex\<close>: it is \<open>-1\<close> or the index of a container of
  \<^verbatim>\<open>messages\<close>.
\<close>

definition slot_at :: "OutMsg list \<Rightarrow> int \<Rightarrow> bool" where
  "slot_at msgs idx =
     (idx = - 1 \<or> (0 \<le> idx \<and> nat idx < length msgs \<and> is_slot (msgs ! nat idx)))"

text \<open>Every group of the map consists of objects flagged \<^verbatim>\<open>is_d_entry\<close>.\<close>

definition groups_flagged :: "(int \<rightharpoonup> Msg list) \<Rightarrow> bool" where
  "groups_flagged groups =
     (\<forall>k. case groups k of None \<Rightarrow> True | Some g \<Rightarrow> list_all is_d_entry g)"

text \<open>
  The objects of the entries of position 4 (or of no position) that \<open>sel\<close> selects, in
  the order of the entries.
\<close>

definition depthGroup :: "(DEntry \<Rightarrow> bool) \<Rightarrow> DEntry list \<Rightarrow> Msg list" where
  "depthGroup sel entries = map depthMsg (filter (\<lambda>x. isPosition4 x \<and> sel x) entries)"

text \<open>The positions the interface documents (\<^verbatim>\<open>0-4\<close>), or no position.\<close>

definition positionInRange :: "DEntry \<Rightarrow> bool" where
  "positionInRange entry =
     (case d_position entry of None \<Rightarrow> True | Some p \<Rightarrow> 0 \<le> p \<and> p \<le> 4)"

section \<open>Example inputs\<close>

definition turn :: "string \<Rightarrow> string \<Rightarrow> Msg" where
  "turn r t =
     \<lparr> m_role = r, m_parts = [t], m_timestamp = None,
       is_d_entry = False, is_author_note = False,
       m_depth = None, m_position = None, m_constant = None,
       m_identifier = None, m_name = None \<rparr>"

definition chat :: "string \<Rightarrow> string \<Rightarrow> ChatMessage" where
  "chat r t =
     \<lparr> c_role = r, c_parts = Some [t], c_timestamp = None,
       c_is_d_entry = False, c_is_author_note = False \<rparr>"

definition entry_at :: "string \<Rightarrow> int option \<Rightarrow> int option \<Rightarrow> DEntry" where
  "entry_at c p d =
     \<lparr> d_name = c, d_content = c, d_role = None, d_position = p, d_depth = d,
       d_constant = None, d_key = None, d_identifier = None \<rparr>"

definition plain_entry :: "string \<Rightarrow> RFrameworkEntry" where
  "plain_entry c =
     \<lparr> r_name = c, r_content = c, r_role = None, r_identifier = None, isChatHistory = None \<rparr>"

definition slot_entry :: RFrameworkEntry where
  "slot_entry =
     \<lparr> r_name = ''Chat History'', r_content = [], r_role = Some ''system'',
       r_identifier = Some ''chatHistory'', isChatHistory = Some True \<rparr>"

definition request ::
  "RFrameworkEntry list \<Rightarrow> DEntry list \<Rightarrow> ChatMessage list \<Rightarrow> string option \<Rightarrow> PromptBuilderOptions" where
  "request fw ds hist msg =
     \<lparr> rFramework = fw, dEntries = Some ds, chatHistory = Some hist,
       userMessage = msg, maxHistoryLength = None \<rparr>"

section \<open>Auxiliary lemmas\<close>

subsection \<open>Stripping the flagged objects\<close>

lemma filter_splice_insert:
  "is_d_entry item \<Longrightarrow>
   filter (\<lambda>m. \<not> is_d_entry m) (splice_insert s item xs) = filter (\<lambda>m. \<not> is_d_entry m) xs"
proof -
  assume d: "is_d_entry item"
  have "filter (\<lambda>m. \<not> is_d_entry m) (take n xs) @ filter (\<lambda>m. \<not> is_d_entry m) (drop n xs)
        = filter (\<lambda>m. \<not> is_d_entry m) xs" for n
    by (metis append_take_drop_id filter_append)
  then show ?thesis
    using d by (simp add: splice_insert_def Let_def)
qed

lemma filter_insertBefore:
  "list_all is_d_entry items \<Longrightarrow>
   filter (\<lambda>m. \<not> is_d_entry m) (insertBefore a items fh) = filter (\<lambda>m. \<not> is_d_entry m) fh"
  by (induction items arbitrary: fh) (simp_all add: filter_splice_insert)

lemma filter_insertAfter:
  "list_all is_d_entry items \<Longrightarrow>
   filter (\<lambda>m. \<not> is_d_entry m) (insertAfter a i items fh) = filter (\<lambda>m. \<not> is_d_entry m) fh"
  by (induction items arbitrary: fh i) (simp_all add: filter_splice_insert)

lemma others_d_entry: "list_all is_d_entry (otherPositionEntries entries)"
  by (simp add: otherPositionEntries_def list_all_iff positionMsg_def)

lemma filter_anchorPass:
  "list_all is_d_entry others \<Longrightarrow>
   filter (\<lambda>m. \<not> is_d_entry m) (anchorPass others fh) = filter (\<lambda>m. \<not> is_d_entry m) fh"
  by (simp add: anchorPass_def Let_def filter_insertBefore filter_insertAfter list_all_iff)

lemma groups_flagged_step: "groups_flagged acc \<Longrightarrow> groups_flagged (groupStep acc e)"
  unfolding groups_flagged_def groupStep_def Let_def
  by (auto simp: depthMsg_def split: option.splits)

lemma groups_flagged_foldl: "groups_flagged acc \<Longrightarrow> groups_flagged (foldl groupStep acc es)"
  by (induction es arbitrary: acc) (simp_all add: groups_flagged_step)

lemma groups_flagged_position4: "groups_flagged (position4Entries entries)"
  unfolding position4Entries_def
  by (rule groups_flagged_foldl) (simp add: groups_flagged_def)

lemma filter_pushGroup:
  "groups_flagged groups \<Longrightarrow>
   filter (\<lambda>m. \<not> is_d_entry m) (pushGroup groups k fh) = filter (\<lambda>m. \<not> is_d_entry m) fh"
  unfolding groups_flagged_def pushGroup_def
  by (auto simp: list_all_iff split: option.splits dest!: spec[of _ k])

lemma filter_depthLoop:
  "groups_flagged groups \<Longrightarrow>
   filter (\<lambda>m. \<not> is_d_entry m) (depthLoop groups base i msgs fh)
     = filter (\<lambda>m. \<not> is_d_entry m) fh @ filter (\<lambda>m. \<not> is_d_entry m) msgs"
  by (induction msgs arbitrary: i fh) (simp_all add: Let_def filter_pushGroup)

subsection \<open>The framework loop and the container\<close>

lemma frameworkStep_pair:
  "frameworkStep (msgs, idx) e
     = (if flagged e then (msgs @ [containerBlock e], int (length msgs))
        else (msgs @ [frameworkBlock e], idx))"
  by (simp add: frameworkStep_def flagged_def)

lemma frameworkStep_fst:
  "fst (foldl frameworkStep (msgs, idx) es)
     = msgs @ map (\<lambda>e. if flagged e then containerBlock e else frameworkBlock e) es"
  by (induction es arbitrary: msgs idx) (simp_all add: frameworkStep_pair)

lemma is_slot_blocks [simp]: "is_slot (containerBlock e)" "\<not> is_slot (frameworkBlock e)"
  by (simp_all add: is_slot_def containerBlock_def frameworkBlock_def)

lemma slots_of_framework:
  "length (filter is_slot (map (\<lambda>e. if flagged e then containerBlock e else frameworkBlock e) es))
     = length (filter flagged es)"
  by (induction es) simp_all

lemma frameworkStep_slot_at:
  "slot_at msgs idx \<Longrightarrow>
   slot_at (fst (foldl frameworkStep (msgs, idx) es)) (snd (foldl frameworkStep (msgs, idx) es))"
proof (induction es arbitrary: msgs idx)
  case Nil
  then show ?case by simp
next
  case (Cons e es)
  have "slot_at (fst (frameworkStep (msgs, idx) e)) (snd (frameworkStep (msgs, idx) e))"
    using Cons.prems by (auto simp: frameworkStep_pair slot_at_def nth_append)
  then show ?case
    using Cons.IH[of "fst (frameworkStep (msgs, idx) e)" "snd (frameworkStep (msgs, idx) e)"]
    by simp
qed

lemma frameworkStep_snd:
  "(snd (foldl frameworkStep (msgs, idx) es) = - 1) = (idx = - 1 \<and> filter flagged es = [])"
proof (induction es arbitrary: msgs idx)
  case Nil
  then show ?case by simp
next
  case (Cons e es)
  show ?case
    by (simp add: frameworkStep_pair Cons.IH)
qed

lemma buildShell_slots:
  "length (filter is_slot (fst (buildShell options)))
     = (if filter flagged (rFramework options) = []
        then (if hasConversation options then 1 else 0)
        else length (filter flagged (rFramework options)))"
proof -
  obtain msgs idx where f: "foldl frameworkStep ([], - 1) (rFramework options) = (msgs, idx)"
    by (cases "foldl frameworkStep ([], - 1) (rFramework options)")
  have m: "msgs = map (\<lambda>e. if flagged e then containerBlock e else frameworkBlock e) (rFramework options)"
    using frameworkStep_fst[of "[]" "- 1" "rFramework options"] f by simp
  have i: "(idx = - 1) = (filter flagged (rFramework options) = [])"
    using frameworkStep_snd[of "[]" "- 1" "rFramework options"] f by simp
  have c: "length (filter is_slot msgs) = length (filter flagged (rFramework options))"
    unfolding m by (rule slots_of_framework)
  show ?thesis
    using i c by (simp add: buildShell_def f hasConversation_def is_slot_def)
qed

lemma buildShell_slot_at: "slot_at (fst (buildShell options)) (snd (buildShell options))"
proof -
  obtain msgs idx where f: "foldl frameworkStep ([], - 1) (rFramework options) = (msgs, idx)"
    by (cases "foldl frameworkStep ([], - 1) (rFramework options)")
  have "slot_at msgs idx"
    using frameworkStep_slot_at[of "[]" "- 1" "rFramework options"] f by (simp add: slot_at_def)
  then show ?thesis
    by (auto simp: buildShell_def f slot_at_def is_slot_def nth_append)
qed

lemma slots_list_update:
  "i < length xs \<Longrightarrow> is_slot (xs ! i) \<Longrightarrow> is_slot y \<Longrightarrow>
   length (filter is_slot (xs[i := y])) = length (filter is_slot xs)"
proof -
  assume a: "i < length xs" "is_slot (xs ! i)" "is_slot y"
  have "map is_slot (xs[i := y]) = map is_slot xs"
    using a by (simp add: map_update list_update_same_conv)
  then have "length (filter id (map is_slot (xs[i := y]))) = length (filter id (map is_slot xs))"
    by simp
  then show ?thesis
    by (simp add: filter_map comp_def)
qed

lemma buildPrompt_slots:
  "length (filter is_slot (buildPrompt options)) = length (filter is_slot (fst (buildShell options)))"
proof -
  obtain msgs idx where s: "buildShell options = (msgs, idx)"
    by (cases "buildShell options")
  have sa: "slot_at msgs idx"
    using buildShell_slot_at[of options] s by simp
  show ?thesis
  proof (cases "idx = - 1")
    case True
    then show ?thesis by (simp add: buildPrompt_def s)
  next
    case False
    then have "nat idx < length msgs" "is_slot (msgs ! nat idx)"
      using sa by (simp_all add: slot_at_def)
    then show ?thesis
      using False by (simp add: buildPrompt_def s Let_def slots_list_update is_slot_def)
  qed
qed

subsection \<open>Length of the processed history\<close>

lemma length_processHistory:
  "length (processHistory h) = length (filter (\<lambda>m. \<not> c_is_d_entry m) h)"
proof -
  have "(\<lambda>x. processMessage x \<noteq> None) = (\<lambda>m. \<not> c_is_d_entry m)"
    by (simp add: processMessage_def fun_eq_iff)
  then show ?thesis
    by (simp add: processHistory_def map_filter_def)
qed

lemma length_processedHistory:
  "length (processedHistory options)
     = length (filter (\<lambda>m. \<not> c_is_d_entry m)
                 (slice_last (windowSize options) (arr_or (chatHistory options) [])))
       + (if truthy (userMessage options) then 1 else 0)"
  by (simp add: processedHistory_def Let_def length_processHistory)

subsection \<open>The groups of position 4\<close>

lemma foldl_groupStep_lookup:
  "foldl groupStep acc es k
     = (if filter (\<lambda>e. num_or (d_depth e) 0 = k) es = [] then acc k
        else Some ((case acc k of None \<Rightarrow> [] | Some g \<Rightarrow> g)
                   @ map depthMsg (filter (\<lambda>e. num_or (d_depth e) 0 = k) es)))"
proof (induction es arbitrary: acc)
  case Nil
  then show ?case by simp
next
  case (Cons e es)
  show ?case
    by (simp add: Cons.IH) (simp add: groupStep_def Let_def)
qed

lemma position4Entries_lookup:
  "position4Entries entries k
     = (if filter (\<lambda>e. isPosition4 e \<and> num_or (d_depth e) 0 = k) entries = [] then None
        else Some (map depthMsg (filter (\<lambda>e. isPosition4 e \<and> num_or (d_depth e) 0 = k) entries)))"
proof -
  have "filter (\<lambda>e. num_or (d_depth e) 0 = k) (filter isPosition4 entries)
        = filter (\<lambda>e. isPosition4 e \<and> num_or (d_depth e) 0 = k) entries"
    by (simp add: conj_commute)
  then show ?thesis
    by (simp add: position4Entries_def foldl_groupStep_lookup)
qed

subsection \<open>Entries of a position out of range\<close>

lemma position4_in_range: "isPosition4 e \<Longrightarrow> positionInRange e"
  by (auto simp: isPosition4_def positionInRange_def)

lemma position4Entries_in_range:
  "position4Entries (filter positionInRange entries) = position4Entries entries"
proof -
  have "filter isPosition4 (filter positionInRange entries) = filter isPosition4 entries"
    by (induction entries) (auto dest: position4_in_range)
  then show ?thesis by (simp add: position4Entries_def)
qed

lemma anchor_items:
  "p \<noteq> 4 \<Longrightarrow>
   filter (\<lambda>m. m_position m = Some p) (otherPositionEntries entries)
     = map positionMsg (filter (\<lambda>e. d_position e = Some p) entries)"
  by (induction entries) (auto simp: otherPositionEntries_def positionMsg_def)

lemma anchor_items_in_range:
  "0 \<le> p \<Longrightarrow> p \<le> 4 \<Longrightarrow>
   filter (\<lambda>e. positionInRange e \<and> d_position e = Some p) entries
     = filter (\<lambda>e. d_position e = Some p) entries"
  by (induction entries) (auto simp: positionInRange_def)

lemma anchorPass_in_range:
  "anchorPass (otherPositionEntries (filter positionInRange entries)) fh
     = anchorPass (otherPositionEntries entries) fh"
  by (simp add: anchorPass_def Let_def anchor_items anchor_items_in_range)

lemma depthLoop_no_groups: "depthLoop Map.empty base i msgs fh = fh @ msgs"
  by (induction msgs arbitrary: i fh) (simp_all add: Let_def pushGroup_def)

lemma anchorPass_no_entries: "anchorPass (otherPositionEntries []) fh = fh"
  by (simp add: anchorPass_def Let_def otherPositionEntries_def)

lemma insert_in_range:
  assumes "list_all (\<lambda>m. \<not> is_d_entry m) history"
  shows "insertDEntriesToHistory history (filter positionInRange entries) baseMessage
           = insertDEntriesToHistory history entries baseMessage"
proof (cases "filter positionInRange entries = []")
  case False
  then have "entries \<noteq> []" by auto
  with False show ?thesis
    by (simp add: insertDEntriesToHistory_def Let_def position4Entries_in_range anchorPass_in_range)
next
  case True
  have h: "filter (\<lambda>m. \<not> is_d_entry m) history = history"
    using assms by (simp add: list_all_iff)
  have g: "position4Entries entries = Map.empty"
    using position4Entries_in_range[of entries] True by (simp add: position4Entries_def)
  have a: "anchorPass (otherPositionEntries entries) fh = fh" for fh
    using anchorPass_in_range[of entries fh] True by (simp add: anchorPass_no_entries)
  show ?thesis
    by (simp add: True insertDEntriesToHistory_def Let_def g a depthLoop_no_groups h)
qed

lemma processHistory_unflagged: "list_all (\<lambda>m. \<not> is_d_entry m) (processHistory h)"
  by (auto simp: processHistory_def map_filter_def list_all_iff processMessage_def)

lemma processedHistory_unflagged: "list_all (\<lambda>m. \<not> is_d_entry m) (processedHistory options)"
  using processHistory_unflagged by (simp add: processedHistory_def Let_def)

subsection \<open>findIndex\<close>

lemma findIndex_ge: "- 1 \<le> findIndex p xs"
  by (induction xs) (simp_all add: Let_def)

lemma findIndex_none: "(findIndex p xs = - 1) = (\<not> list_ex p xs)"
proof (induction xs)
  case Nil
  then show ?case by simp
next
  case (Cons x xs)
  have "findIndex p xs + 1 \<noteq> - 1"
    using findIndex_ge[of p xs] by arith
  then show ?case
    using Cons.IH by (simp add: Let_def)
qed

subsection \<open>The reference index\<close>

text \<open>
  When the base message is found, the reference index is the index of the last user turn
  with that text; when it is not found, the reference index is the length of the array.
\<close>

lemma findIndex_first:
  "\<not> list_ex p xs \<Longrightarrow> p y \<Longrightarrow> findIndex p (xs @ y # ys) = int (length xs)"
  by (induction xs) (simp_all add: Let_def)

lemma effectiveBaseIndex_found:
  assumes "is_base baseMessage ref" "\<not> list_ex (is_base baseMessage) post"
  shows "effectiveBaseIndex (pre @ ref # post) baseMessage = int (length pre)"
proof -
  have "\<not> list_ex (is_base baseMessage) (rev post)"
    using assms(2) by (simp add: list_ex_iff)
  then have "findIndex (is_base baseMessage) (rev post @ ref # rev pre) = int (length (rev post))"
    using assms(1) by (rule findIndex_first)
  then show ?thesis
    by (simp add: effectiveBaseIndex_def baseMessageIndex_def)
qed

lemma effectiveBaseIndex_not_found:
  assumes "\<not> list_ex (is_base baseMessage) chatMessages"
  shows "effectiveBaseIndex chatMessages baseMessage = int (length chatMessages)"
proof -
  have "\<not> list_ex (is_base baseMessage) (rev chatMessages)"
    using assms by (simp add: list_ex_iff)
  then have "findIndex (is_base baseMessage) (rev chatMessages) = - 1"
    by (simp add: findIndex_none)
  then show ?thesis
    by (simp add: effectiveBaseIndex_def baseMessageIndex_def)
qed

subsection \<open>The depth loop\<close>

text \<open>
  The loop only appends to \<^verbatim>\<open>finalHistory\<close>. At the reference turn it pushes the group of
  depth 0 on both sides of the turn.
\<close>

lemma pushGroup_append:
  "pushGroup groups k (xs @ ys) = xs @ pushGroup groups k ys"
  by (simp add: pushGroup_def split: option.split)

lemma depthLoop_prefix:
  "depthLoop groups base i msgs (xs @ ys) = xs @ depthLoop groups base i msgs ys"
  by (induction msgs arbitrary: i ys) (simp_all add: Let_def pushGroup_append)

lemma depthLoop_acc:
  "depthLoop groups base i msgs fh = fh @ depthLoop groups base i msgs []"
  using depthLoop_prefix[of groups base i msgs fh "[]"] by simp

lemma depthLoop_append:
  "depthLoop groups base i (xs @ ys) fh
     = depthLoop groups base (i + int (length xs)) ys (depthLoop groups base i xs fh)"
  by (induction xs arbitrary: i fh) (simp_all add: Let_def add.assoc)

lemma depthLoop_at_base:
  assumes "groups 0 = Some g"
  shows "depthLoop groups (int (length pre)) 0 (pre @ ref # post) []
           = depthLoop groups (int (length pre)) 0 pre [] @ g @ [ref] @ g
             @ depthLoop groups (int (length pre)) (int (length pre) + 1) post []"
proof -
  let ?b = "int (length pre)"
  let ?A = "depthLoop groups ?b 0 pre []"
  have "depthLoop groups ?b 0 (pre @ ref # post) [] = depthLoop groups ?b ?b (ref # post) ?A"
    by (simp add: depthLoop_append)
  also have "\<dots> = depthLoop groups ?b (?b + 1) post (?A @ g @ [ref] @ g)"
    using assms by (simp add: Let_def pushGroup_def)
  also have "\<dots> = (?A @ g @ [ref] @ g) @ depthLoop groups ?b (?b + 1) post []"
    by (rule depthLoop_acc)
  finally show ?thesis by simp
qed

subsection \<open>The pass around the author note\<close>

text \<open>
  The result of step 5.2 on a history whose first author note is \<open>anchor\<close>: without
  entries of position 2, the entries of position 3 follow the anchor; with entries of
  position 2, they follow the first of these and precede the anchor.
\<close>

lemma findIndex_author_note:
  "list_all (\<lambda>m. \<not> is_author_note m) pre \<Longrightarrow> is_author_note anchor \<Longrightarrow>
   findIndex is_author_note (pre @ anchor # post) = int (length pre)"
  by (rule findIndex_first) (simp_all add: list_all_iff list_ex_iff)

lemma splice_insert_at:
  "splice_insert (int (length start)) item (start @ rest) = start @ item # rest"
  by (simp add: splice_insert_def Let_def)

lemma insertBefore_at:
  "insertBefore (int (length pre)) items (pre @ rest) = pre @ rev items @ rest"
proof (induction items arbitrary: rest)
  case Nil
  then show ?case by simp
next
  case (Cons x xs)
  show ?case
    by (simp add: splice_insert_at Cons.IH)
qed

lemma insertAfter_at:
  "int (length start) = a + 1 + i \<Longrightarrow>
   insertAfter a i items (start @ rest) = start @ items @ rest"
proof (induction items arbitrary: start i)
  case Nil
  then show ?case by simp
next
  case (Cons x xs)
  have s: "splice_insert (a + 1 + i) x (start @ rest) = (start @ [x]) @ rest"
    using splice_insert_at[of start x rest] Cons.prems by simp
  have "int (length (start @ [x])) = a + 1 + (i + 1)"
    using Cons.prems by simp
  then have "insertAfter a (i + 1) xs ((start @ [x]) @ rest) = (start @ [x]) @ xs @ rest"
    by (rule Cons.IH)
  then show ?case
    by (simp only: insertAfter.simps s) simp
qed

lemma anchorPass_result:
  assumes "list_all (\<lambda>m. \<not> is_author_note m) pre" "is_author_note anchor"
  shows "anchorPass others (pre @ anchor # post)
           = (case filter (\<lambda>e. m_position e = Some 2) others of
                [] \<Rightarrow> pre @ anchor # filter (\<lambda>e. m_position e = Some 3) others @ post
              | x # xs \<Rightarrow> pre @ x # filter (\<lambda>e. m_position e = Some 3) others @ xs @ anchor # post)"
proof -
  let ?p2 = "filter (\<lambda>e. m_position e = Some 2) others"
  let ?p3 = "filter (\<lambda>e. m_position e = Some 3) others"
  let ?a = "int (length pre)"
  have a: "findIndex is_author_note (pre @ anchor # post) = ?a"
    using assms by (rule findIndex_author_note)
  have b: "insertBefore ?a (rev ?p2) (pre @ anchor # post) = pre @ ?p2 @ anchor # post"
    by (simp add: insertBefore_at)
  have r: "anchorPass others (pre @ anchor # post) = insertAfter ?a 0 ?p3 (pre @ ?p2 @ anchor # post)"
    by (simp add: anchorPass_def a b Let_def)
  show ?thesis
  proof (cases ?p2)
    case Nil
    have "insertAfter ?a 0 ?p3 ((pre @ [anchor]) @ post) = (pre @ [anchor]) @ ?p3 @ post"
      by (rule insertAfter_at) simp
    then show ?thesis
      using Nil r by simp
  next
    case (Cons x xs)
    have "insertAfter ?a 0 ?p3 ((pre @ [x]) @ (xs @ anchor # post)) = (pre @ [x]) @ ?p3 @ (xs @ anchor # post)"
      by (rule insertAfter_at) simp
    then show ?thesis
      using Cons r by simp
  qed
qed

subsection \<open>The text of the container\<close>

text \<open>
  A block whose parts are turns gives line feeds only, and \<^verbatim>\<open>messagesToText\<close> leaves it
  out.
\<close>

lemma blank_spaces: "list_all is_space s \<Longrightarrow> blank s"
  by (induction s rule: blank.induct) simp_all

lemma join_blank: "list_all is_space (join [CHR 0x0A] (map (\<lambda>h. []) hs))"
proof (induction hs rule: induct_list012)
  case 1
  then show ?case by simp
next
  case (2 x)
  then show ?case by simp
next
  case (3 x y zs)
  then show ?case by (simp add: is_space_def)
qed

lemma container_text_blank:
  "o_parts block = Turns hs \<Longrightarrow> \<not> trim_nonempty (messageText block)"
  by (simp add: messageText_def trim_nonempty_def join_blank blank_spaces)

lemma container_left_out:
  "o_parts block = Turns hs \<Longrightarrow>
   messagesToText (pre @ block # post) = messagesToText (pre @ post)"
  by (simp add: messagesToText_def container_text_blank)

subsection \<open>Histories without flagged turns and without an author note\<close>

text \<open>
  The turns that \<^verbatim>\<open>processHistory\<close> builds, and the pushed user message, carry neither
  \<^verbatim>\<open>is_d_entry\<close> nor \<^verbatim>\<open>is_author_note\<close>. On such a history step 5.2 finds no author
  note, and the result of \<^verbatim>\<open>insertDEntriesToHistory\<close> is the result of the loop of step 5.1.
\<close>

lemma pushGroup_no_author_note:
  assumes "\<And>k g. groups k = Some g \<Longrightarrow> list_all (\<lambda>m. \<not> is_author_note m) g"
    and "list_all (\<lambda>m. \<not> is_author_note m) fh"
  shows "list_all (\<lambda>m. \<not> is_author_note m) (pushGroup groups k fh)"
  using assms by (auto simp: pushGroup_def split: option.split)

lemma depthLoop_no_author_note:
  assumes "\<And>k g. groups k = Some g \<Longrightarrow> list_all (\<lambda>m. \<not> is_author_note m) g"
  shows "list_all (\<lambda>m. \<not> is_author_note m) fh \<Longrightarrow> list_all (\<lambda>m. \<not> is_author_note m) msgs \<Longrightarrow>
         list_all (\<lambda>m. \<not> is_author_note m) (depthLoop groups base i msgs fh)"
proof (induction msgs arbitrary: i fh)
  case Nil
  then show ?case by simp
next
  case (Cons m ms)
  have a: "list_all (\<lambda>m. \<not> is_author_note m) (pushGroup groups (base - i) fh @ [m])"
    using Cons.prems assms by (simp add: pushGroup_no_author_note)
  then have b: "list_all (\<lambda>m. \<not> is_author_note m) (pushGroup groups 0 (pushGroup groups (base - i) fh @ [m]))"
    using assms by (rule pushGroup_no_author_note[rotated])
  define fh3 where "fh3 = (if i = base then pushGroup groups 0 (pushGroup groups (base - i) fh @ [m])
                           else pushGroup groups (base - i) fh @ [m])"
  have c: "list_all (\<lambda>m. \<not> is_author_note m) fh3"
    using a b by (simp only: fh3_def split: if_split) simp
  have d: "list_all (\<lambda>m. \<not> is_author_note m) ms"
    using Cons.prems(2) by simp
  have "depthLoop groups base i (m # ms) fh = depthLoop groups base (i + 1) ms fh3"
    by (simp add: Let_def fh3_def)
  then show ?case
    using Cons.IH[OF c d] by simp
qed

lemma position4Entries_no_author_note:
  "position4Entries entries k = Some g \<Longrightarrow> list_all (\<lambda>m. \<not> is_author_note m) g"
  by (auto simp: position4Entries_lookup list_all_iff depthMsg_def split: if_splits)

lemma anchorPass_no_anchor:
  "list_all (\<lambda>m. \<not> is_author_note m) fh \<Longrightarrow> anchorPass others fh = fh"
proof -
  assume "list_all (\<lambda>m. \<not> is_author_note m) fh"
  then have "\<not> list_ex is_author_note fh"
    by (simp add: list_all_iff list_ex_iff)
  then have "findIndex is_author_note fh = - 1"
    by (simp add: findIndex_none)
  then show ?thesis
    by (simp add: anchorPass_def)
qed

lemma insert_plain:
  assumes "list_all (\<lambda>m. \<not> is_d_entry m) history"
    and "list_all (\<lambda>m. \<not> is_author_note m) history"
    and "entries \<noteq> []" "history \<noteq> []"
  shows "insertDEntriesToHistory history entries baseMessage
           = depthLoop (position4Entries entries) (effectiveBaseIndex history baseMessage) 0 history []"
proof -
  have h: "filter (\<lambda>m. \<not> is_d_entry m) history = history"
    using assms(1) by (simp add: list_all_iff)
  have "list_all (\<lambda>m. \<not> is_author_note m)
          (depthLoop (position4Entries entries) (effectiveBaseIndex history baseMessage) 0 history [])"
    using position4Entries_no_author_note assms(2)
    by (intro depthLoop_no_author_note) simp_all
  then show ?thesis
    using assms(3,4) by (simp add: insertDEntriesToHistory_def Let_def h anchorPass_no_anchor)
qed





subsection \<open>The groups of depth 0 and of depth 1\<close>

lemma depthLoop_last:
  "msgs \<noteq> [] \<Longrightarrow> i + int (length msgs) \<le> base \<Longrightarrow>
   last (depthLoop groups base i msgs fh) = last msgs"
proof (induction msgs arbitrary: i fh)
  case Nil
  then show ?case by simp
next
  case (Cons m ms)
  show ?case
  proof (cases ms)
    case Nil
    then show ?thesis using Cons.prems by (simp add: Let_def)
  next
    case (Cons m' ms')
    then have "last (depthLoop groups base (i + 1) ms (pushGroup groups (base - i) fh @ [m])) = last ms"
      using Cons.prems Cons.IH[of "i + 1"] by simp
    then show ?thesis
      using Cons Cons.prems by (simp add: Let_def)
  qed
qed

lemma position4Entries_0:
  "position4Entries entries 0
     = (if depthGroup (\<lambda>x. d_depth x = None \<or> d_depth x = Some 0) entries = [] then None
        else Some (depthGroup (\<lambda>x. d_depth x = None \<or> d_depth x = Some 0) entries))"
proof -
  have "(\<lambda>e. isPosition4 e \<and> num_or (d_depth e) 0 = 0)
        = (\<lambda>x. isPosition4 x \<and> (d_depth x = None \<or> d_depth x = Some 0))"
    by (auto simp: fun_eq_iff num_or_def split: option.splits)
  then show ?thesis
    by (simp add: position4Entries_lookup depthGroup_def)
qed

lemma position4Entries_1:
  "position4Entries entries 1
     = (if depthGroup (\<lambda>x. d_depth x = Some 1) entries = [] then None
        else Some (depthGroup (\<lambda>x. d_depth x = Some 1) entries))"
proof -
  have "(\<lambda>e. isPosition4 e \<and> num_or (d_depth e) 0 = 1) = (\<lambda>x. isPosition4 x \<and> d_depth x = Some 1)"
    by (auto simp: fun_eq_iff num_or_def split: option.splits)
  then show ?thesis
    by (simp add: position4Entries_lookup depthGroup_def)
qed

lemma pushGroup_1:
  "pushGroup (position4Entries entries) 1 fh = fh @ depthGroup (\<lambda>x. d_depth x = Some 1) entries"
  by (simp add: pushGroup_def position4Entries_1)

lemma depthGroup_flagged: "list_all is_d_entry (depthGroup sel entries)"
  by (simp add: depthGroup_def list_all_iff depthMsg_def)

subsection \<open>Evaluation\<close>

lemmas ex_defs = request_def chat_def turn_def entry_at_def plain_entry_def slot_entry_def

lemmas run_defs = buildPrompt_def buildShell_def frameworkStep_def containerBlock_def frameworkBlock_def
  processedHistory_def windowSize_def slice_last_def processHistory_def List.map_filter_def processMessage_def
  insertDEntriesToHistory_def effectiveBaseIndex_def baseMessageIndex_def is_base_def first_text_def
  position4Entries_def groupStep_def depthMsg_def positionMsg_def otherPositionEntries_def isPosition4_def
  pushGroup_def anchorPass_def splice_insert_def
  str_or_def num_or_def arr_or_def truthy_def Let_def

section \<open>Properties\<close>

subsection \<open>C1: entries of depth 0\<close>

text \<open>
  C1 says that, with the reference turn found at an index \<open>r\<close>, every entry of position 4
  and depth 0 is emitted exactly once, immediately after the reference turn, and never
  before it. The loop of step 5.1 pushes the group of \<^verbatim>\<open>depthFromBase\<close> before every
  message, also when \<^verbatim>\<open>depthFromBase\<close> is 0, and then pushes the group of depth 0 again
  after the message of index \<^verbatim>\<open>effectiveBaseIndex\<close> (lemma \<open>depthLoop_at_base\<close>). The theorem evaluates \<^verbatim>\<open>buildPrompt\<close>
  on a history of two turns, the new message \<^verbatim>\<open>h2\<close> and one entry of depth 0: the
  entry's object stands both before and after the reference turn \<^verbatim>\<open>h2\<close>.
\<close>

theorem depth0_emitted_twice:
  "buildPrompt (request [] [entry_at ''D'' (Some 4) (Some 0)]
                  [chat ''user'' ''h0'', chat ''assistant'' ''h1''] (Some ''h2''))
     = [\<lparr> o_name = ''Chat History'', o_role = ''system'',
           o_parts = Turns [turn ''user'' ''h0'', turn ''model'' ''h1'',
                            depthMsg (entry_at ''D'' (Some 4) (Some 0)),
                            turn ''user'' ''h2'',
                            depthMsg (entry_at ''D'' (Some 4) (Some 0))],
           o_identifier = Some ''chatHistory'' \<rparr>]"
  by (simp add: ex_defs run_defs)

subsection \<open>C2: entries without a depth\<close>

text \<open>
  C2, as amended. An entry of position 4 (or of no position) whose \<^verbatim>\<open>depth\<close> is absent
  is grouped under the key \<^verbatim>\<open>entry.depth || 0\<close>, which is 0: the group of depth 0 is made
  of the entries without depth and the entries of explicit depth 0, in the order of the
  entries, and the entry is not in the group of depth 1. In a history without flagged
  turns and without an author note, with the reference turn found after the turns \<open>pre\<close>,
  the group of depth 0 stands immediately after the reference turn; and the objects
  standing immediately before the turn one position before the reference turn are the
  group of depth 1, the entries of explicit depth 1, so the entry without depth is not
  placed there.
\<close>

theorem absent_depth_group:
  assumes e: "e \<in> set entries" "isPosition4 e" "d_depth e = None"
    and flags: "list_all (\<lambda>m. \<not> is_d_entry m) (pre @ ref # post)"
      "list_all (\<lambda>m. \<not> is_author_note m) (pre @ ref # post)"
    and base: "is_base baseMessage ref" "\<not> list_ex (is_base baseMessage) post"
  shows "position4Entries entries 0
           = Some (depthGroup (\<lambda>x. d_depth x = None \<or> d_depth x = Some 0) entries)
         \<and> depthMsg e \<in> set (depthGroup (\<lambda>x. d_depth x = None \<or> d_depth x = Some 0) entries)
         \<and> depthMsg e \<notin> set (depthGroup (\<lambda>x. d_depth x = Some 1) entries)
         \<and> (\<exists>front rear.
               insertDEntriesToHistory (pre @ ref # post) entries baseMessage
                 = front @ ref # depthGroup (\<lambda>x. d_depth x = None \<or> d_depth x = Some 0) entries @ rear
               \<and> filter (\<lambda>m. \<not> is_d_entry m) front = pre)
         \<and> (\<forall>pre' t. pre = pre' @ [t] \<longrightarrow>
               (\<exists>front rear.
                  insertDEntriesToHistory (pre @ ref # post) entries baseMessage
                    = front @ depthGroup (\<lambda>x. d_depth x = Some 1) entries @ t # rear
                  \<and> filter (\<lambda>m. \<not> is_d_entry m) front = pre'
                  \<and> (front = [] \<or> \<not> is_d_entry (last front))))"
proof -
  let ?G = "position4Entries entries"
  let ?g0 = "depthGroup (\<lambda>x. d_depth x = None \<or> d_depth x = Some 0) entries"
  let ?g1 = "depthGroup (\<lambda>x. d_depth x = Some 1) entries"
  let ?r = "int (length pre)"
  let ?out = "insertDEntriesToHistory (pre @ ref # post) entries baseMessage"
  let ?B = "depthLoop ?G ?r (?r + 1) post []"
  have in0: "depthMsg e \<in> set ?g0"
    using e by (simp add: depthGroup_def)
  then have ne: "?g0 \<noteq> []"
    by (metis empty_iff empty_set)
  have G0: "?G 0 = Some ?g0"
    using ne by (simp add: position4Entries_0)
  have not1: "depthMsg e \<notin> set ?g1"
  proof
    assume "depthMsg e \<in> set ?g1"
    then obtain x where x: "d_depth x = Some 1" "depthMsg e = depthMsg x"
      by (auto simp: depthGroup_def)
    from x(2) have "m_depth (depthMsg e) = m_depth (depthMsg x)" by simp
    then show False using x(1) e(3) by (simp add: depthMsg_def)
  qed
  have "entries \<noteq> []" using e(1) by auto
  then have out: "?out = depthLoop ?G (effectiveBaseIndex (pre @ ref # post) baseMessage) 0 (pre @ ref # post) []"
    using flags by (intro insert_plain) simp_all
  have r: "effectiveBaseIndex (pre @ ref # post) baseMessage = ?r"
    using base by (rule effectiveBaseIndex_found)
  have split: "?out = depthLoop ?G ?r 0 pre [] @ ?g0 @ [ref] @ ?g0 @ ?B"
    unfolding out r using G0 by (rule depthLoop_at_base)
  have fpre: "filter (\<lambda>m. \<not> is_d_entry m) (depthLoop ?G ?r 0 xs []) = xs"
    if "list_all (\<lambda>m. \<not> is_d_entry m) xs" for xs
    using that by (simp add: filter_depthLoop groups_flagged_position4 list_all_iff)
  have fg: "filter (\<lambda>m. \<not> is_d_entry m) (depthGroup sel entries) = []" for sel
    using depthGroup_flagged[of sel entries] by (simp add: list_all_iff)
  have after: "\<exists>front rear. ?out = front @ ref # ?g0 @ rear
                 \<and> filter (\<lambda>m. \<not> is_d_entry m) front = pre"
  proof (intro exI conjI)
    show "?out = (depthLoop ?G ?r 0 pre [] @ ?g0) @ ref # ?g0 @ ?B"
      using split by simp
    show "filter (\<lambda>m. \<not> is_d_entry m) (depthLoop ?G ?r 0 pre [] @ ?g0) = pre"
      using flags(1) by (simp add: fpre fg)
  qed
  have before: "\<exists>front rear. ?out = front @ ?g1 @ t # rear
                  \<and> filter (\<lambda>m. \<not> is_d_entry m) front = pre'
                  \<and> (front = [] \<or> \<not> is_d_entry (last front))"
    if p: "pre = pre' @ [t]" for pre' t
  proof -
    let ?F = "depthLoop ?G ?r 0 pre' []"
    have len: "?r = int (length pre') + 1"
      using p by simp
    have "depthLoop ?G ?r 0 pre [] = depthLoop ?G ?r (int (length pre')) [t] ?F"
      unfolding p by (simp add: depthLoop_append)
    also have "\<dots> = ?F @ ?g1 @ [t]"
      using len by (simp add: Let_def pushGroup_1)
    finally have A: "depthLoop ?G ?r 0 pre [] = ?F @ ?g1 @ [t]" .
    have unfl: "list_all (\<lambda>m. \<not> is_d_entry m) pre'"
      using flags(1) p by simp
    have lst: "?F = [] \<or> \<not> is_d_entry (last ?F)"
    proof (cases "pre' = []")
      case True
      then show ?thesis by simp
    next
      case False
      then have "last ?F = last pre'"
        using len by (intro depthLoop_last) simp_all
      moreover have "\<not> is_d_entry (last pre')"
        using unfl False by (simp add: list_all_iff)
      ultimately show ?thesis by simp
    qed
    show ?thesis
    proof (intro exI conjI)
      show "?out = ?F @ ?g1 @ t # (?g0 @ [ref] @ ?g0 @ ?B)"
        using split A by simp
      show "filter (\<lambda>m. \<not> is_d_entry m) ?F = pre'"
        using unfl by (rule fpre)
      show "?F = [] \<or> \<not> is_d_entry (last ?F)"
        by (rule lst)
    qed
  qed
  show ?thesis
    using G0 in0 not1 after before by blast
qed

text \<open>
  The theorem of C2 at a history of three turns whose last one is the reference turn, with
  an entry without depth, an entry of depth 1 and an entry of depth 0.
\<close>

theorem absent_depth_group_witness:
  "entry_at ''D'' None None
     \<in> set [entry_at ''D'' None None, entry_at ''E'' (Some 4) (Some 1), entry_at ''F'' (Some 4) (Some 0)]
   \<and> isPosition4 (entry_at ''D'' None None)
   \<and> d_depth (entry_at ''D'' None None) = None
   \<and> is_base ''h2'' (turn ''user'' ''h2'')
   \<and> position4Entries
         [entry_at ''D'' None None, entry_at ''E'' (Some 4) (Some 1), entry_at ''F'' (Some 4) (Some 0)] 0
       = Some [depthMsg (entry_at ''D'' None None), depthMsg (entry_at ''F'' (Some 4) (Some 0))]
   \<and> (\<exists>front rear.
         insertDEntriesToHistory [turn ''user'' ''h0'', turn ''model'' ''h1'', turn ''user'' ''h2'']
           [entry_at ''D'' None None, entry_at ''E'' (Some 4) (Some 1), entry_at ''F'' (Some 4) (Some 0)]
           ''h2''
         = front @ turn ''user'' ''h2''
             # [depthMsg (entry_at ''D'' None None), depthMsg (entry_at ''F'' (Some 4) (Some 0))] @ rear
         \<and> filter (\<lambda>m. \<not> is_d_entry m) front = [turn ''user'' ''h0'', turn ''model'' ''h1''])
   \<and> (\<exists>front rear.
         insertDEntriesToHistory [turn ''user'' ''h0'', turn ''model'' ''h1'', turn ''user'' ''h2'']
           [entry_at ''D'' None None, entry_at ''E'' (Some 4) (Some 1), entry_at ''F'' (Some 4) (Some 0)]
           ''h2''
         = front @ [depthMsg (entry_at ''E'' (Some 4) (Some 1))] @ turn ''model'' ''h1'' # rear
         \<and> filter (\<lambda>m. \<not> is_d_entry m) front = [turn ''user'' ''h0'']
         \<and> (front = [] \<or> \<not> is_d_entry (last front)))"
proof -
  let ?e = "entry_at ''D'' None None"
  let ?ents = "[?e, entry_at ''E'' (Some 4) (Some 1), entry_at ''F'' (Some 4) (Some 0)]"
  let ?pre = "[turn ''user'' ''h0'', turn ''model'' ''h1'']"
  let ?ref = "turn ''user'' ''h2''"
  have a: "?e \<in> set ?ents" by simp
  have b: "isPosition4 ?e" by (simp add: isPosition4_def entry_at_def)
  have c: "d_depth ?e = None" by (simp add: entry_at_def)
  have f1: "list_all (\<lambda>m. \<not> is_d_entry m) (?pre @ ?ref # [])" by (simp add: turn_def)
  have f2: "list_all (\<lambda>m. \<not> is_author_note m) (?pre @ ?ref # [])" by (simp add: turn_def)
  have b1: "is_base ''h2'' ?ref" by (simp add: is_base_def first_text_def turn_def)
  have b2: "\<not> list_ex (is_base ''h2'') []" by simp
  have g0: "depthGroup (\<lambda>x. d_depth x = None \<or> d_depth x = Some 0) ?ents
            = [depthMsg ?e, depthMsg (entry_at ''F'' (Some 4) (Some 0))]"
    by (simp add: depthGroup_def isPosition4_def entry_at_def)
  have g1: "depthGroup (\<lambda>x. d_depth x = Some 1) ?ents = [depthMsg (entry_at ''E'' (Some 4) (Some 1))]"
    by (simp add: depthGroup_def isPosition4_def entry_at_def)
  note T = absent_depth_group [OF a b c f1 f2 b1 b2]
  from T have P0: "position4Entries ?ents 0
                     = Some (depthGroup (\<lambda>x. d_depth x = None \<or> d_depth x = Some 0) ?ents)"
    by (rule conjunct1)
  from T have A: "\<exists>front rear.
        insertDEntriesToHistory (?pre @ ?ref # []) ?ents ''h2''
          = front @ ?ref # depthGroup (\<lambda>x. d_depth x = None \<or> d_depth x = Some 0) ?ents @ rear
        \<and> filter (\<lambda>m. \<not> is_d_entry m) front = ?pre"
    by blast
  from T have "\<forall>pre' t. ?pre = pre' @ [t] \<longrightarrow>
        (\<exists>front rear.
           insertDEntriesToHistory (?pre @ ?ref # []) ?ents ''h2''
             = front @ depthGroup (\<lambda>x. d_depth x = Some 1) ?ents @ t # rear
           \<and> filter (\<lambda>m. \<not> is_d_entry m) front = pre'
           \<and> (front = [] \<or> \<not> is_d_entry (last front)))"
    by blast
  then have B: "\<exists>front rear.
        insertDEntriesToHistory (?pre @ ?ref # []) ?ents ''h2''
          = front @ depthGroup (\<lambda>x. d_depth x = Some 1) ?ents @ turn ''model'' ''h1'' # rear
        \<and> filter (\<lambda>m. \<not> is_d_entry m) front = [turn ''user'' ''h0'']
        \<and> (front = [] \<or> \<not> is_d_entry (last front))"
    by (elim allE [where x = "[turn ''user'' ''h0'']"] allE [where x = "turn ''model'' ''h1''"]) simp
  have P0': "position4Entries ?ents 0
               = Some [depthMsg ?e, depthMsg (entry_at ''F'' (Some 4) (Some 0))]"
    using P0 by (simp only: g0)
  have A': "\<exists>front rear.
        insertDEntriesToHistory [turn ''user'' ''h0'', turn ''model'' ''h1'', ?ref] ?ents ''h2''
          = front @ ?ref # [depthMsg ?e, depthMsg (entry_at ''F'' (Some 4) (Some 0))] @ rear
        \<and> filter (\<lambda>m. \<not> is_d_entry m) front = ?pre"
    using A by (simp only: g0 append.simps)
  have B': "\<exists>front rear.
        insertDEntriesToHistory [turn ''user'' ''h0'', turn ''model'' ''h1'', ?ref] ?ents ''h2''
          = front @ [depthMsg (entry_at ''E'' (Some 4) (Some 1))] @ turn ''model'' ''h1'' # rear
        \<and> filter (\<lambda>m. \<not> is_d_entry m) front = [turn ''user'' ''h0'']
        \<and> (front = [] \<or> \<not> is_d_entry (last front))"
    using B by (simp only: g1 append.simps)
  show ?thesis
    using a b c b1 P0' A' B' by (intro conjI)
qed

text \<open>
  C2 as stated fails: for one entry of position 4 and no depth there is no group of
  depth 1, and the result on the history \<^verbatim>\<open>[h0, h1, h2]\<close> with reference \<^verbatim>\<open>h2\<close> is not
  the history with the entry's object immediately before \<^verbatim>\<open>h1\<close>.
\<close>

theorem absent_depth_counterexample:
  "position4Entries [entry_at ''D'' (Some 4) None] 1 = None
   \<and> insertDEntriesToHistory [turn ''user'' ''h0'', turn ''model'' ''h1'', turn ''user'' ''h2'']
        [entry_at ''D'' (Some 4) None] ''h2''
      \<noteq> [turn ''user'' ''h0'', depthMsg (entry_at ''D'' (Some 4) None),
           turn ''model'' ''h1'', turn ''user'' ''h2'']"
  by (simp add: ex_defs run_defs)

subsection \<open>C3: the reference index when the base message is not found\<close>

text \<open>
  C3 says that, when no user turn has the reference content as its text, the reference
  index is the last index of the history. \<^verbatim>\<open>findIndex\<close> returns \<open>-1\<close> on the reversed
  array, so \<^verbatim>\<open>baseMessageIndex\<close> is \<^verbatim>\<open>length - 1 - (-1)\<close>, the length, which is never
  \<open>-1\<close>: the fallback \<^verbatim>\<open>chatMessages.length - 1\<close> is not taken (lemma
  \<open>effectiveBaseIndex_not_found\<close>). The theorem evaluates \<^verbatim>\<open>buildPrompt\<close> on a history of
  two turns, no new message and one entry of depth 1: the reference index is 2, the
  length, and the entry is placed before the last turn (distance 1 from index 2), not
  before the turn preceding it.
\<close>

theorem missing_base_reference_index:
  "effectiveBaseIndex
     (processedHistory (request [] [entry_at ''D'' (Some 4) (Some 1)]
                          [chat ''user'' ''h0'', chat ''model'' ''h1''] None)) [] = 2
   \<and> buildPrompt (request [] [entry_at ''D'' (Some 4) (Some 1)]
                     [chat ''user'' ''h0'', chat ''model'' ''h1''] None)
     = [\<lparr> o_name = ''Chat History'', o_role = ''system'',
           o_parts = Turns [turn ''user'' ''h0'',
                            depthMsg (entry_at ''D'' (Some 4) (Some 1)),
                            turn ''model'' ''h1''],
           o_identifier = Some ''chatHistory'' \<rparr>]"
  by (simp add: ex_defs run_defs)

subsection \<open>C4: entries of positions 2 and 3 around the author note\<close>



subsection \<open>C5: stripping the flagged objects restores the history\<close>

text \<open>
  C5. For every history without objects flagged \<^verbatim>\<open>is_d_entry\<close>, every list of entries
  and every base message, removing the flagged objects from the result of
  \<^verbatim>\<open>insertDEntriesToHistory\<close> yields the history itself, unchanged and in order.
\<close>

theorem strip_annotations_restores_history:
  assumes "list_all (\<lambda>m. \<not> is_d_entry m) history"
  shows "filter (\<lambda>m. \<not> is_d_entry m) (insertDEntriesToHistory history entries baseMessage) = history"
proof -
  have h: "filter (\<lambda>m. \<not> is_d_entry m) history = history"
    using assms by (simp add: list_all_iff)
  show ?thesis
    by (simp add: insertDEntriesToHistory_def Let_def filter_anchorPass others_d_entry
        filter_depthLoop groups_flagged_position4 h)
qed

text \<open>
  The theorem of C5 at a history of three turns, one of them an author note, with entries
  of depth 1, of no depth, of position 2 and of position 3.
\<close>

theorem strip_annotations_witness:
  "list_all (\<lambda>m. \<not> is_d_entry m)
     [turn ''user'' ''h0'', (turn ''model'' ''h1'')\<lparr>is_author_note := True\<rparr>, turn ''user'' ''h2'']
   \<and> filter (\<lambda>m. \<not> is_d_entry m)
       (insertDEntriesToHistory
          [turn ''user'' ''h0'', (turn ''model'' ''h1'')\<lparr>is_author_note := True\<rparr>, turn ''user'' ''h2'']
          [entry_at ''a'' (Some 4) (Some 1), entry_at ''b'' None None, entry_at ''c'' (Some 2) None,
           entry_at ''d'' (Some 3) None]
          ''h2'')
     = [turn ''user'' ''h0'', (turn ''model'' ''h1'')\<lparr>is_author_note := True\<rparr>, turn ''user'' ''h2'']"
proof -
  have h: "list_all (\<lambda>m. \<not> is_d_entry m)
     [turn ''user'' ''h0'', (turn ''model'' ''h1'')\<lparr>is_author_note := True\<rparr>, turn ''user'' ''h2'']"
    by (simp add: turn_def)
  show ?thesis
    by (rule conjI [OF h strip_annotations_restores_history [OF h]])
qed

subsection \<open>C6: the number of history-slot locations\<close>

text \<open>
  C6, as amended. For every framework with at most one entry flagged \<^verbatim>\<open>isChatHistory\<close>,
  the output has exactly one history-slot location when the framework flags an entry or
  when there is a conversation (a turn of the history or a non-empty user message), and
  none otherwise.
\<close>

theorem slot_count:
  "length (filter flagged (rFramework options)) \<le> 1 \<Longrightarrow>
   length (filter is_slot (buildPrompt options))
     = (if filter flagged (rFramework options) \<noteq> [] \<or> hasConversation options then 1 else 0)"
proof -
  assume a: "length (filter flagged (rFramework options)) \<le> 1"
  have "filter flagged (rFramework options) \<noteq> [] \<Longrightarrow> length (filter flagged (rFramework options)) = 1"
    using a by (cases "filter flagged (rFramework options)") simp_all
  then show ?thesis
    by (auto simp: buildPrompt_slots buildShell_slots)
qed

text \<open>The theorem of C6 at a framework of one block and one flagged entry.\<close>

theorem slot_count_witness:
  "length (filter flagged [plain_entry ''sys'', slot_entry]) \<le> 1
   \<and> length (filter is_slot
         (buildPrompt (request [plain_entry ''sys'', slot_entry] [] [chat ''user'' ''hi''] None))) = 1"
proof -
  have h: "length (filter flagged
             (rFramework (request [plain_entry ''sys'', slot_entry] [] [chat ''user'' ''hi''] None))) \<le> 1"
    by (simp add: request_def flagged_def plain_entry_def slot_entry_def)
  have "length (filter is_slot
         (buildPrompt (request [plain_entry ''sys'', slot_entry] [] [chat ''user'' ''hi''] None))) = 1"
    using slot_count [OF h] by (simp add: request_def flagged_def plain_entry_def slot_entry_def)
  then show ?thesis
    by (simp add: flagged_def plain_entry_def slot_entry_def)
qed

text \<open>
  C6 as stated fails: a framework without a flagged entry, with no history and no user
  message, gives an output without any history-slot location; and a framework with two
  flagged entries gives two containers.
\<close>

theorem no_slot_counterexample:
  "buildPrompt (request [plain_entry ''sys''] [] [] None) = [frameworkBlock (plain_entry ''sys'')]
   \<and> length (filter is_slot (buildPrompt (request [plain_entry ''sys''] [] [] None))) \<noteq> 1
   \<and> length (filter is_slot (buildPrompt (request [slot_entry, slot_entry] [] [] None))) \<noteq> 1"
  by (simp add: ex_defs run_defs is_slot_def)

subsection \<open>C7: the length of the normalized history\<close>

text \<open>
  C7, as amended. For a positive window \<open>W\<close>, the trailing window of \<open>W\<close> turns is taken
  first and the turns flagged \<^verbatim>\<open>is_d_entry\<close> are discarded from it afterwards: the
  history handed to the insertion has as many turns as the last \<open>W\<close> raw turns have
  unflagged ones, plus 1 if a non-empty user message was supplied. When the raw history of
  length \<open>L\<close> has no flagged turn, that is \<open>min L W\<close>, plus 1 for a non-empty message.
\<close>

theorem window_length:
  assumes "0 < windowSize options"
  shows "length (processedHistory options)
           = length (filter (\<lambda>m. \<not> c_is_d_entry m)
               (drop (length (arr_or (chatHistory options) []) - nat (windowSize options))
                  (arr_or (chatHistory options) [])))
             + (if truthy (userMessage options) then 1 else 0)
         \<and> (list_all (\<lambda>m. \<not> c_is_d_entry m) (arr_or (chatHistory options) []) \<longrightarrow>
             length (processedHistory options)
               = min (length (arr_or (chatHistory options) [])) (nat (windowSize options))
                 + (if truthy (userMessage options) then 1 else 0))"
proof -
  let ?h = "arr_or (chatHistory options) []"
  let ?w = "nat (windowSize options)"
  have s: "slice_last (windowSize options) ?h = drop (length ?h - ?w) ?h"
    using assms by (simp add: slice_last_def)
  have a: "length (processedHistory options)
           = length (filter (\<lambda>m. \<not> c_is_d_entry m) (drop (length ?h - ?w) ?h))
             + (if truthy (userMessage options) then 1 else 0)"
    by (simp only: length_processedHistory s)
  have b: "length (filter (\<lambda>m. \<not> c_is_d_entry m) (drop (length ?h - ?w) ?h)) = min (length ?h) ?w"
    if "list_all (\<lambda>m. \<not> c_is_d_entry m) ?h"
  proof -
    have "\<forall>m\<in>set (drop (length ?h - ?w) ?h). \<not> c_is_d_entry m"
      using that by (auto simp: list_all_iff dest: in_set_dropD)
    then have "filter (\<lambda>m. \<not> c_is_d_entry m) (drop (length ?h - ?w) ?h) = drop (length ?h - ?w) ?h"
      by simp
    then show ?thesis by (simp add: min_def)
  qed
  show ?thesis using a b by simp
qed

text \<open>The theorem of C7 at a history of three turns, window 2 and a new message.\<close>

theorem window_length_witness:
  "0 < windowSize ((request [] [] [chat ''user'' ''a'', chat ''assistant'' ''b'', chat ''user'' ''c''] (Some ''d''))
                     \<lparr>maxHistoryLength := Some 2\<rparr>)
   \<and> length (processedHistory
         ((request [] [] [chat ''user'' ''a'', chat ''assistant'' ''b'', chat ''user'' ''c''] (Some ''d''))
            \<lparr>maxHistoryLength := Some 2\<rparr>)) = 3"
proof -
  let ?o = "(request [] [] [chat ''user'' ''a'', chat ''assistant'' ''b'', chat ''user'' ''c''] (Some ''d''))
              \<lparr>maxHistoryLength := Some 2\<rparr>"
  have h: "0 < windowSize ?o"
    by (simp add: windowSize_def request_def)
  have "length (processedHistory ?o) = 3"
    using window_length [OF h]
    by (simp add: windowSize_def request_def chat_def arr_or_def truthy_def)
  with h show ?thesis by simp
qed

text \<open>
  C7 as stated fails: with window 1 and a raw history of three turns whose last one is
  flagged, the window holds the flagged turn only and the normalized history is empty,
  not of length \<open>min 3 1\<close>; an empty user message is not appended; and with window 0,
  \<^verbatim>\<open>slice(-0)\<close> keeps the whole history.
\<close>

theorem window_length_counterexample:
  "processedHistory
     ((request [] [] [chat ''user'' ''a'', chat ''assistant'' ''b'',
                      (chat ''user'' ''note'')\<lparr>c_is_d_entry := True\<rparr>] None)
        \<lparr>maxHistoryLength := Some 1\<rparr>) = []
   \<and> length (processedHistory
         ((request [] [] [chat ''user'' ''a'', chat ''assistant'' ''b'',
                          (chat ''user'' ''note'')\<lparr>c_is_d_entry := True\<rparr>] None)
            \<lparr>maxHistoryLength := Some 1\<rparr>))
       \<noteq> min (length [chat ''user'' ''a'', chat ''assistant'' ''b'',
                        (chat ''user'' ''note'')\<lparr>c_is_d_entry := True\<rparr>]) 1
   \<and> length (processedHistory (request [] [] [] (Some []))) \<noteq> min 0 15 + 1
   \<and> length (processedHistory
         ((request [] [] [chat ''user'' ''a'', chat ''assistant'' ''b''] None)
            \<lparr>maxHistoryLength := Some 0\<rparr>))
       \<noteq> min (length [chat ''user'' ''a'', chat ''assistant'' ''b'']) 0"
  by (simp add: ex_defs run_defs)

subsection \<open>C8: the chat history in the flattened text\<close>

text \<open>
  C8 says that the text renders every turn of the history slot as a label and its
  content. The first test of the callback, \<^verbatim>\<open>Array.isArray(msg.parts)\<close>, holds for the
  container too, whose turns have no \<^verbatim>\<open>text\<close>: the container gives line feeds only and is
  filtered out (lemma \<open>container_left_out\<close>), and the branch that writes the labels is
  never reached. The theorem
  evaluates \<^verbatim>\<open>messagesToText\<close> on the output for one framework block, the container, two
  turns and a new message: the text is the framework block alone.
\<close>

theorem history_missing_from_text:
  "messagesToText
     (buildPrompt (request [plain_entry ''be kind'', slot_entry] []
                     [chat ''user'' ''hi'', chat ''assistant'' ''hello''] (Some ''how are you'')))
     = ''be kind''"
  by (simp add: ex_defs run_defs messagesToText_def messageText_def trim_nonempty_def
      is_space_def is_space2_def is_space3_def)

subsection \<open>C9: no validation of the position\<close>

text \<open>
  C9, as amended. \<^verbatim>\<open>buildPrompt\<close> never fails: for every input, also with entries whose
  position is outside \<open>[0,4]\<close>, with an empty framework, an empty history or no entries,
  it returns an output, and the entries whose position is outside \<open>[0,4]\<close> are ignored:
  the output is the one of the same call without them.
\<close>

theorem buildPrompt_never_fails:
  "buildPrompt_outcome options
     = Inr (buildPrompt (options\<lparr>dEntries := Some (filter positionInRange (arr_or (dEntries options) []))\<rparr>))"
proof -
  let ?o = "options\<lparr>dEntries := Some (filter positionInRange (arr_or (dEntries options) []))\<rparr>"
  have s: "buildShell ?o = buildShell options"
    by (simp add: buildShell_def)
  have p: "processedHistory ?o = processedHistory options"
    by (simp add: processedHistory_def windowSize_def Let_def)
  have i: "insertDEntriesToHistory (processedHistory options)
             (filter positionInRange (arr_or (dEntries options) [])) (str_or (userMessage options) [])
           = insertDEntriesToHistory (processedHistory options)
               (arr_or (dEntries options) []) (str_or (userMessage options) [])"
    by (rule insert_in_range) (rule processedHistory_unflagged)
  have a: "arr_or (dEntries ?o) [] = filter positionInRange (arr_or (dEntries options) [])"
    by (simp add: arr_or_def)
  have u: "userMessage ?o = userMessage options"
    by simp
  have "buildPrompt ?o = buildPrompt options"
    unfolding buildPrompt_def s p a u i by (rule refl)
  then show ?thesis by (simp add: buildPrompt_outcome_def)
qed

text \<open>
  C9 as stated fails: with an entry of position 7 the call returns the output of the
  call without the entry, not a \<open>ValidationError\<close>.
\<close>

theorem out_of_range_position_counterexample:
  "buildPrompt_outcome (request [] [entry_at ''D'' (Some 7) None] [] (Some ''hi''))
     = Inr [\<lparr> o_name = ''Chat History'', o_role = ''system'',
               o_parts = Turns [turn ''user'' ''hi''],
               o_identifier = Some ''chatHistory'' \<rparr>]"
  by (simp add: buildPrompt_outcome_def ex_defs run_defs)

subsection \<open>C10: createDEntry and falsy options\<close>

text \<open>
  C10. For every options object, \<^verbatim>\<open>createDEntry\<close> replaces an explicitly supplied
  falsy field by the default: \<^verbatim>\<open>constant\<close> is \<^verbatim>\<open>true\<close> also when the options say
  \<^verbatim>\<open>false\<close>, \<^verbatim>\<open>position\<close> is 4 when the options say 0, \<^verbatim>\<open>depth\<close> is 1 when the
  options say 0. So no entry built by \<^verbatim>\<open>createDEntry\<close> has depth 0, position 0 or
  \<^verbatim>\<open>constant = false\<close>.
\<close>

theorem createDEntry_falsy_defaults:
  "d_constant (createDEntry (options\<lparr>d_constant := Some False\<rparr>)) = Some True
   \<and> d_position (createDEntry (options\<lparr>d_position := Some 0\<rparr>)) = Some 4
   \<and> d_depth (createDEntry (options\<lparr>d_depth := Some 0\<rparr>)) = Some 1
   \<and> d_constant (createDEntry options) = Some True
   \<and> d_position (createDEntry options) \<noteq> Some 0
   \<and> d_depth (createDEntry options) \<noteq> Some 0"
  by (simp add: createDEntry_def num_or_def bool_or_def split: option.split)

end
